theory Spec2Isabelle
  imports Complex_Main
begin

section \<open>Python values shared by both source files\<close>

text \<open>
  The two source files of the pruning driver: \<^verbatim>\<open>lib/data.py\<close>, which samples the
  calibration windows, and \<^verbatim>\<open>main.py\<close>, which runs one pruning job. Functions keep
  their Python names. The libraries they call (tokenizer, datasets, \<^verbatim>\<open>random\<close>, model
  loading, the pruning criteria, evaluation) are parameters of the model.

  The exceptions the two files can raise themselves follow. A raise is the left summand
  of a result; a loop that never returns is the value \<open>None\<close> of an option around it.
\<close>

datatype error =
    AssertionError
  | ValueError
  | IndexError
  | KeyError
  | AttributeError
  | TypeError
  | ImportError
  | LoadError
  | FileNotFoundError

text \<open>\<^verbatim>\<open>sep.join(parts)\<close>\<close>

fun join :: "string \<Rightarrow> string list \<Rightarrow> string" where
  "join sep [] = []"
| "join sep [x] = x"
| "join sep (x # y # ys) = x @ sep @ join sep (y # ys)"

text \<open>
  \<^verbatim>\<open>xs[i:j]\<close> with step 1: a negative bound counts from the end, and both bounds are
  clamped into \<open>[0, len]\<close>; the slice is empty when the bounds cross.
\<close>

definition clamp_index :: "int \<Rightarrow> int \<Rightarrow> int" where
  "clamp_index n k = (if k < 0 then max 0 (k + n) else min k n)"

definition py_slice :: "'a list \<Rightarrow> int \<Rightarrow> int \<Rightarrow> 'a list" where
  "py_slice xs i j =
     (let n = int (length xs); a = clamp_index n i; b = clamp_index n j
      in take (nat (b - a)) (drop (nat a) xs))"

text \<open>\<^verbatim>\<open>xs[i]\<close>: a negative index counts from the end, outside the range it raises.\<close>

definition py_index :: "'a list \<Rightarrow> int \<Rightarrow> error + 'a" where
  "py_index xs i =
     (let n = int (length xs)
      in if i < - n \<or> n \<le> i then Inl IndexError
         else Inr (xs ! nat (if i < 0 then i + n else i)))"

text \<open>\<^verbatim>\<open>sub in s\<close> on strings.\<close>

fun starts_with :: "string \<Rightarrow> string \<Rightarrow> bool" where
  "starts_with [] s = True"
| "starts_with (c # cs) [] = False"
| "starts_with (c # cs) (d # ds) = (c = d \<and> starts_with cs ds)"

fun contains :: "string \<Rightarrow> string \<Rightarrow> bool" where
  "contains sub [] = (sub = [])"
| "contains sub (c # cs) = (starts_with sub (c # cs) \<or> contains sub cs)"

section \<open>lib/data.py: the calibration sampler\<close>

subsection \<open>Collaborators: tokenizer, corpora, the \<^verbatim>\<open>random\<close> module\<close>

text \<open>
  What a tokenizer call returns: \<^verbatim>\<open>input_ids\<close> and \<^verbatim>\<open>attention_mask\<close>, tensors of
  shape \<open>[1, n]\<close>; the batch dimension of size one is dropped.
\<close>

record encoding =
  input_ids :: "int list"
  attention_mask :: "int list"

text \<open>
  The tokenizer is a collaborator: \<open>encode tk text max_length\<close> stands for
  \<^verbatim>\<open>tokenizer(text, return_tensors='pt', max_length=max_length, truncation=True)\<close>, and
  \<open>model_max_length\<close> is the attribute \<^verbatim>\<open>getattr\<close> looks for.
\<close>

record tokenizer =
  model_max_length :: "int option"
  encode :: "string \<Rightarrow> int \<Rightarrow> encoding"

text \<open>The \<^verbatim>\<open>'text'\<close> column of the four splits \<^verbatim>\<open>load_dataset\<close> fetches.\<close>

record corpora =
  wikitext2_train :: "string list"
  wikitext2_test :: "string list"
  c4_train :: "string list"
  c4_validation :: "string list"

text \<open>
  Python's \<^verbatim>\<open>random\<close> module over a generator state \<open>'g\<close>: \<open>rng_seed\<close> is the
  state \<^verbatim>\<open>random.seed(seed)\<close> installs, \<open>rng_draw g a b\<close> the value and the next state
  of a draw from the non-empty range \<open>a..b\<close>.
\<close>

record 'g random_module =
  rng_seed :: "int \<Rightarrow> 'g"
  rng_draw :: "'g \<Rightarrow> int \<Rightarrow> int \<Rightarrow> int \<times> 'g"

text \<open>\<^verbatim>\<open>random.randint(a, b)\<close> raises ValueError on an empty range.\<close>

definition randint :: "'g random_module \<Rightarrow> 'g \<Rightarrow> int \<Rightarrow> int \<Rightarrow> error + (int \<times> 'g)" where
  "randint R g a b = (if b < a then Inl ValueError else Inr (rng_draw R g a b))"

text \<open>The library's contracts the sampler relies on.\<close>

definition randint_in_range :: "'g random_module \<Rightarrow> bool" where
  "randint_in_range R \<longleftrightarrow>
     (\<forall>g a b. a \<le> b \<longrightarrow> a \<le> fst (rng_draw R g a b) \<and> fst (rng_draw R g a b) \<le> b)"

definition aligned_mask :: "tokenizer \<Rightarrow> bool" where
  "aligned_mask tk \<longleftrightarrow>
     (\<forall>text n. length (attention_mask (encode tk text n)) = length (input_ids (encode tk text n)))"

subsection \<open>The sampler\<close>

text \<open>A calibration sample \<^verbatim>\<open>(inp, attention_mask, tar)\<close>.\<close>

type_synonym sample = "int list \<times> int list \<times> int list"

text \<open>The second component of what a loader returns.\<close>

datatype eval_encoding =
    BatchEncoding encoding
  | TokenizerWrapper "int list"

datatype loaders =
    PyNone
  | Loaders "sample list" eval_encoding

text \<open>\<^verbatim>\<open>max_length = getattr(tokenizer, 'model_max_length', seqlen)\<close>\<close>

definition max_length_of :: "tokenizer \<Rightarrow> int \<Rightarrow> int" where
  "max_length_of tk seqlen = (case model_max_length tk of Some n \<Rightarrow> n | None \<Rightarrow> seqlen)"

text \<open>
  The body both loops share (data.py lines 39 to 45 and 66 to 72): the draw of the start
  offset, and the three windows cut at it. \<^verbatim>\<open>tar = inp.clone()\<close> is a copy of the
  values.
\<close>

definition draw_offset ::
  "'g random_module \<Rightarrow> encoding \<Rightarrow> int \<Rightarrow> 'g \<Rightarrow> error + (int \<times> 'g)" where
  "draw_offset R trainenc seqlen g =
     randint R g 0 (int (length (input_ids trainenc)) - seqlen - 1)"

definition cut_window :: "encoding \<Rightarrow> int \<Rightarrow> int \<Rightarrow> sample" where
  "cut_window trainenc seqlen i =
     (let j = i + seqlen;
          inp = py_slice (input_ids trainenc) i j;
          mask = py_slice (attention_mask trainenc) i j;
          tar = inp
      in (inp, mask, tar))"

text \<open>\<^verbatim>\<open>for _ in range(nsamples)\<close> of \<^verbatim>\<open>get_wikitext2\<close>, by the iterations left.\<close>

fun wikitext2_loop ::
  "'g random_module \<Rightarrow> encoding \<Rightarrow> int \<Rightarrow> nat \<Rightarrow> 'g \<Rightarrow> sample list
   \<Rightarrow> error + (sample list \<times> 'g)" where
  "wikitext2_loop R trainenc seqlen 0 g trainloader = Inr (trainloader, g)"
| "wikitext2_loop R trainenc seqlen (Suc k) g trainloader =
     (case draw_offset R trainenc seqlen g of
        Inl e \<Rightarrow> Inl e
      | Inr (i, g') \<Rightarrow>
          wikitext2_loop R trainenc seqlen k g' (trainloader @ [cut_window trainenc seqlen i]))"

text \<open>
  \<^verbatim>\<open>get_wikitext2\<close>. The last argument is the state of the global generator when the
  function is entered; \<^verbatim>\<open>random.seed(seed)\<close> replaces it.
\<close>

definition get_wikitext2 ::
  "'g random_module \<Rightarrow> corpora \<Rightarrow> int \<Rightarrow> int \<Rightarrow> int \<Rightarrow> tokenizer \<Rightarrow> 'g
   \<Rightarrow> error + (loaders \<times> 'g)" where
  "get_wikitext2 R D nsamples seed seqlen tk g0 =
     (let max_length = max_length_of tk seqlen;
          train_text = join '' '' (wikitext2_train D);
          trainenc = encode tk train_text max_length;
          test_text = join [CHR 0x0A, CHR 0x0A] (wikitext2_test D);
          testenc = encode tk test_text max_length;
          g = rng_seed R seed
      in case wikitext2_loop R trainenc seqlen (nat nsamples) g [] of
           Inl e \<Rightarrow> Inl e
         | Inr (trainloader, g') \<Rightarrow> Inr (Loaders trainloader (BatchEncoding testenc), g'))"

text \<open>
  The \<^verbatim>\<open>while True\<close> of \<^verbatim>\<open>get_c4\<close>: draw a record, tokenize it, leave the loop when it
  has more than \<open>seqlen\<close> tokens. There is no bound on the number of rounds, so the
  result is an option and \<open>None\<close> is a loop that never ends.
\<close>

partial_function (option) c4_retry ::
  "'g random_module \<Rightarrow> tokenizer \<Rightarrow> string list \<Rightarrow> int \<Rightarrow> int \<Rightarrow> 'g
   \<Rightarrow> (error + (encoding \<times> 'g)) option" where
  "c4_retry R tk traindata max_length seqlen g =
     (case randint R g 0 (int (length traindata) - 1) of
        Inl e \<Rightarrow> Some (Inl e)
      | Inr (i, g') \<Rightarrow>
          (case py_index traindata i of
             Inl e \<Rightarrow> Some (Inl e)
           | Inr text \<Rightarrow>
               (let trainenc = encode tk text max_length
                in if int (length (input_ids trainenc)) > seqlen
                   then Some (Inr (trainenc, g'))
                   else c4_retry R tk traindata max_length seqlen g')))"

declare c4_retry.simps [code]

text \<open>\<^verbatim>\<open>for _ in range(nsamples)\<close> of \<^verbatim>\<open>get_c4\<close>.\<close>

fun c4_loop ::
  "'g random_module \<Rightarrow> tokenizer \<Rightarrow> string list \<Rightarrow> int \<Rightarrow> int \<Rightarrow> nat \<Rightarrow> 'g \<Rightarrow> sample list
   \<Rightarrow> (error + (sample list \<times> 'g)) option" where
  "c4_loop R tk traindata max_length seqlen 0 g trainloader = Some (Inr (trainloader, g))"
| "c4_loop R tk traindata max_length seqlen (Suc k) g trainloader =
     (case c4_retry R tk traindata max_length seqlen g of
        None \<Rightarrow> None
      | Some (Inl e) \<Rightarrow> Some (Inl e)
      | Some (Inr (trainenc, g1)) \<Rightarrow>
          (case draw_offset R trainenc seqlen g1 of
             Inl e \<Rightarrow> Some (Inl e)
           | Inr (i, g2) \<Rightarrow>
               c4_loop R tk traindata max_length seqlen k g2
                 (trainloader @ [cut_window trainenc seqlen i])))"

text \<open>The validation encoding of \<^verbatim>\<open>get_c4\<close> (data.py lines 75 to 78).\<close>

definition c4_valenc :: "tokenizer \<Rightarrow> string list \<Rightarrow> int \<Rightarrow> int \<Rightarrow> int list" where
  "c4_valenc tk valdata max_length seqlen =
     (let val_text = join '' '' (take 1100 valdata);
          valenc = encode tk val_text max_length
      in py_slice (input_ids valenc) 0 (256 * seqlen))"

definition get_c4 ::
  "'g random_module \<Rightarrow> corpora \<Rightarrow> int \<Rightarrow> int \<Rightarrow> int \<Rightarrow> tokenizer \<Rightarrow> 'g
   \<Rightarrow> (error + (loaders \<times> 'g)) option" where
  "get_c4 R D nsamples seed seqlen tk g0 =
     (let max_length = max_length_of tk seqlen;
          g = rng_seed R seed
      in case c4_loop R tk (c4_train D) max_length seqlen (nat nsamples) g [] of
           None \<Rightarrow> None
         | Some (Inl e) \<Rightarrow> Some (Inl e)
         | Some (Inr (trainloader, g')) \<Rightarrow>
             Some (Inr (Loaders trainloader
                          (TokenizerWrapper (c4_valenc tk (c4_validation D) max_length seqlen)),
                        g')))"

text \<open>
  \<^verbatim>\<open>get_loaders\<close>: the first matching name wins; a name that matches neither falls off
  the end of the function, which returns \<^verbatim>\<open>None\<close> and leaves the generator alone.
\<close>

definition get_loaders ::
  "'g random_module \<Rightarrow> corpora \<Rightarrow> string \<Rightarrow> int \<Rightarrow> int \<Rightarrow> int \<Rightarrow> tokenizer \<Rightarrow> 'g
   \<Rightarrow> (error + (loaders \<times> 'g)) option" where
  "get_loaders R D name nsamples seed seqlen tk g0 =
     (if contains ''wikitext2'' name then Some (get_wikitext2 R D nsamples seed seqlen tk g0)
      else if contains ''c4'' name then get_c4 R D nsamples seed seqlen tk g0
      else Some (Inr (PyNone, g0)))"

subsection \<open>What the rejection loop leaves behind\<close>

text \<open>
  The property of a result of \<open>c4_retry\<close>: an error, or the encoding of one of the train
  records, with more than \<open>seqlen\<close> tokens.
\<close>

definition found_ok ::
  "tokenizer \<Rightarrow> string list \<Rightarrow> int \<Rightarrow> int \<Rightarrow> (error + (encoding \<times> 'g)) \<Rightarrow> bool" where
  "found_ok tk traindata max_length seqlen r =
     (case r of
        Inl e \<Rightarrow> True
      | Inr (enc, g') \<Rightarrow>
          seqlen < int (length (input_ids enc))
          \<and> (\<exists>doc \<in> set traindata. enc = encode tk doc max_length))"

subsection \<open>The rejection loop in the specification's words\<close>

text \<open>
  \<open>reaches g enc g'\<close>: the record draws that start in generator state \<open>g\<close> come, after
  finitely many draws of records with at most \<open>seqlen\<close> tokens, to a record whose
  tokenization \<open>enc\<close> has more than \<open>seqlen\<close> tokens, and leave the generator in \<open>g'\<close>.
  Every draw is the draw of an index into the train split.
\<close>

inductive reaches ::
  "'g random_module \<Rightarrow> tokenizer \<Rightarrow> string list \<Rightarrow> int \<Rightarrow> int \<Rightarrow> 'g \<Rightarrow> encoding \<Rightarrow> 'g \<Rightarrow> bool"
  for R tk traindata max_length seqlen where
  hit: "rng_draw R g 0 (int (length traindata) - 1) = (i, g') \<Longrightarrow>
        0 \<le> i \<Longrightarrow> i < int (length traindata) \<Longrightarrow>
        enc = encode tk (traindata ! nat i) max_length \<Longrightarrow>
        seqlen < int (length (input_ids enc)) \<Longrightarrow>
        reaches R tk traindata max_length seqlen g enc g'"
| miss: "rng_draw R g 0 (int (length traindata) - 1) = (i, g') \<Longrightarrow>
        0 \<le> i \<Longrightarrow> i < int (length traindata) \<Longrightarrow>
        \<not> seqlen < int (length (input_ids (encode tk (traindata ! nat i) max_length))) \<Longrightarrow>
        reaches R tk traindata max_length seqlen g' enc g'' \<Longrightarrow>
        reaches R tk traindata max_length seqlen g enc g''"

text \<open>
  \<open>every_iteration_reaches k g\<close>: each of \<open>k\<close> iterations of the sampling loop, the
  first one entered in state \<open>g\<close>, reaches such a record; the next iteration starts in
  the state the offset draw leaves.
\<close>

inductive every_iteration_reaches ::
  "'g random_module \<Rightarrow> tokenizer \<Rightarrow> string list \<Rightarrow> int \<Rightarrow> int \<Rightarrow> nat \<Rightarrow> 'g \<Rightarrow> bool"
  for R tk traindata max_length seqlen where
  no_iteration: "every_iteration_reaches R tk traindata max_length seqlen 0 g"
| iteration: "reaches R tk traindata max_length seqlen g enc g1 \<Longrightarrow>
         g2 = snd (rng_draw R g1 0 (int (length (input_ids enc)) - seqlen - 1)) \<Longrightarrow>
         every_iteration_reaches R tk traindata max_length seqlen k g2 \<Longrightarrow>
         every_iteration_reaches R tk traindata max_length seqlen (Suc k) g"

text \<open>The same statement about one result of \<open>c4_retry\<close>, under the library's contract.\<close>

definition retry_reached ::
  "'g random_module \<Rightarrow> tokenizer \<Rightarrow> string list \<Rightarrow> int \<Rightarrow> int \<Rightarrow> 'g
   \<Rightarrow> (error + (encoding \<times> 'g)) \<Rightarrow> bool" where
  "retry_reached R tk traindata max_length seqlen g r \<longleftrightarrow>
     (randint_in_range R \<and> traindata \<noteq> [] \<longrightarrow>
       (\<exists>enc g'. r = Inr (enc, g') \<and> reaches R tk traindata max_length seqlen g enc g'))"

subsection \<open>A small generator, tokenizer and corpus to run the sampler on\<close>

text \<open>
  A counter as generator state: the draw from \<open>a..b\<close> is \<open>a + g mod (b - a + 1)\<close>. The
  tokenizer maps every character to its code, truncates to \<open>max_length\<close> and marks every
  token as real.
\<close>

definition counter_rng :: "nat random_module" where
  "counter_rng =
     \<lparr>rng_seed = (\<lambda>seed. nat \<bar>seed\<bar>),
      rng_draw = (\<lambda>g a b. (a + int g mod (b - a + 1), Suc g))\<rparr>"

definition char_tokenizer :: "int option \<Rightarrow> tokenizer" where
  "char_tokenizer m =
     \<lparr>model_max_length = m,
      encode = (\<lambda>doc n.
        let ids = take (nat n) (map (\<lambda>c. int (of_char c)) doc)
        in \<lparr>input_ids = ids, attention_mask = replicate (length ids) 1\<rparr>)\<rparr>"

definition stub_corpora :: corpora where
  "stub_corpora =
     \<lparr>wikitext2_train = [''abc'', ''de''],
      wikitext2_test = [''xy''],
      c4_train = [''ab'', ''abcdef''],
      c4_validation = [''uvw'', ''z'']\<rparr>"

definition short_corpora :: corpora where
  "short_corpora =
     \<lparr>wikitext2_train = [''ab''],
      wikitext2_test = [''xy''],
      c4_train = [''ab''],
      c4_validation = [''uvw'', ''z'']\<rparr>"

definition empty_corpora :: corpora where
  "empty_corpora =
     \<lparr>wikitext2_train = [],
      wikitext2_test = [],
      c4_train = [],
      c4_validation = []\<rparr>"

section \<open>main.py: one pruning run\<close>

subsection \<open>Strings\<close>

text \<open>\<^verbatim>\<open>s.lower()\<close> on the ASCII letters; a model identifier is ASCII.\<close>

definition lower_char :: "char \<Rightarrow> char" where
  "lower_char c =
     (let k = (of_char c :: nat) in if 65 \<le> k \<and> k \<le> 90 then char_of (k + 32) else c)"

definition lower :: "string \<Rightarrow> string" where
  "lower s = map lower_char s"

text \<open>\<^verbatim>\<open>s.split(sep)\<close> for a separator of one character.\<close>

fun split_on :: "char \<Rightarrow> string \<Rightarrow> string list" where
  "split_on sep [] = [[]]"
| "split_on sep (c # cs) =
     (if c = sep then [] # split_on sep cs
      else (case split_on sep cs of
              [] \<Rightarrow> [[c]]
            | part # parts \<Rightarrow> (c # part) # parts))"

text \<open>
  \<^verbatim>\<open>int(s)\<close> on a decimal literal: an optional sign and at least one ASCII digit;
  \<open>None\<close> is the ValueError. Blanks around the literal and underscores between digits,
  which Python also accepts, are left out: no value of \<^verbatim>\<open>--sparsity_type\<close> has them.
\<close>

definition digit_of :: "char \<Rightarrow> nat option" where
  "digit_of c =
     (let k = (of_char c :: nat) in if 48 \<le> k \<and> k \<le> 57 then Some (k - 48) else None)"

fun digits_value :: "nat \<Rightarrow> string \<Rightarrow> nat option" where
  "digits_value acc [] = Some acc"
| "digits_value acc (c # cs) =
     (case digit_of c of None \<Rightarrow> None | Some d \<Rightarrow> digits_value (10 * acc + d) cs)"

definition py_int :: "string \<Rightarrow> int option" where
  "py_int s =
     (case s of
        [] \<Rightarrow> None
      | c # cs \<Rightarrow>
          if c = CHR ''-'' then (if cs = [] then None
                                else map_option (\<lambda>n. - int n) (digits_value 0 cs))
          else if c = CHR ''+'' then (if cs = [] then None
                                     else map_option int (digits_value 0 cs))
          else map_option int (digits_value 0 s))"

text \<open>\<^verbatim>\<open>os.path.join(a, b)\<close> on POSIX paths.\<close>

definition path_join :: "string \<Rightarrow> string \<Rightarrow> string" where
  "path_join a b =
     (if b \<noteq> [] \<and> hd b = CHR ''/'' then b
      else if a = [] \<or> last a = CHR ''/'' then a @ b
      else a @ ''/'' @ b)"

subsection \<open>Arguments and collaborators\<close>

text \<open>
  The namespace \<^verbatim>\<open>parse_args\<close> returns. An option without a default is \<open>None\<close> when
  it is not given.
\<close>

record args =
  model :: "string option"
  gradient_path :: "string option"
  grad_norm :: string
  seed :: int
  nsamples :: int
  seq_length :: int
  sparsity_ratio :: real
  layer_no :: int
  sparsity_type :: "string option"
  prune_method :: "string option"
  cache_dir :: string
  use_variant :: bool
  save :: "string option"
  save_model :: "string option"
  grad_exponent :: bool
  gradient_inv :: bool

datatype family = Llava | Vision2Seq | CausalLM

datatype processor = AutoProcessor

datatype criterion = Wanda | Gblm | Magnitude | Gradient | Sparsegpt

text \<open>
  An entry of \<^verbatim>\<open>hf_device_map\<close>, and the device handed on: \<^verbatim>\<open>torch.device("cuda:0")\<close>
  or the entry of the map.
\<close>

datatype placement = Gpu nat | Named string

datatype device = TorchDevice string | HfPlacement placement

text \<open>
  The libraries and \<^verbatim>\<open>lib/prune.py\<close>, \<^verbatim>\<open>lib/eval.py\<close>, over model weights \<open>'m\<close> and
  tokenizers \<open>'t\<close>. A tokenizer loader returns \<open>None\<close> where \<^verbatim>\<open>from_pretrained\<close>
  raises; a criterion returns the weights it leaves in the model. The calls that write
  to the file system (\<^verbatim>\<open>os.makedirs\<close>, \<^verbatim>\<open>open(path, "w")\<close>, the two
  \<^verbatim>\<open>save_pretrained\<close>) return the exception they raise, or \<open>None\<close> when they succeed.
\<close>

record ('m, 't) host =
  llava_importable :: bool
  from_pretrained :: "family \<Rightarrow> string \<Rightarrow> string \<Rightarrow> 'm"
  hf_device_map :: "'m \<Rightarrow> string \<Rightarrow> placement option"
  auto_tokenizer :: "string \<Rightarrow> 't option"
  llama_tokenizer :: "string \<Rightarrow> 't option"
  prune_wanda :: "args \<Rightarrow> 'm \<Rightarrow> 't \<Rightarrow> device \<Rightarrow> int \<Rightarrow> int \<Rightarrow> int \<Rightarrow> 'm"
  prune_gblm :: "args \<Rightarrow> 'm \<Rightarrow> 't \<Rightarrow> device \<Rightarrow> int \<Rightarrow> int \<Rightarrow> int \<Rightarrow> 'm"
  prune_magnitude :: "args \<Rightarrow> 'm \<Rightarrow> 't \<Rightarrow> device \<Rightarrow> int \<Rightarrow> int \<Rightarrow> int \<Rightarrow> 'm"
  prune_gradient :: "args \<Rightarrow> 'm \<Rightarrow> 't \<Rightarrow> device \<Rightarrow> int \<Rightarrow> int \<Rightarrow> int \<Rightarrow> 'm"
  prune_sparsegpt :: "args \<Rightarrow> 'm \<Rightarrow> 't \<Rightarrow> device \<Rightarrow> int \<Rightarrow> int \<Rightarrow> int \<Rightarrow> 'm"
  check_sparsity :: "'m \<Rightarrow> args \<Rightarrow> real"
  eval_ppl :: "'m \<Rightarrow> 't \<Rightarrow> device \<Rightarrow> real"
  path_exists :: "string \<Rightarrow> bool"
  makedirs :: "string \<Rightarrow> error option"
  open_write :: "string \<Rightarrow> error option"
  save_pretrained :: "'m \<Rightarrow> string \<Rightarrow> error option"
  tokenizer_save_pretrained :: "'t \<Rightarrow> string \<Rightarrow> error option"
  format_4f :: "real \<Rightarrow> string"

text \<open>
  What a run does to the world, in order: the calls to the collaborators that load,
  prune, audit, evaluate and persist. The audit and the evaluation carry the value they
  returned.
\<close>

datatype event =
    GetLLM family string string
  | ModelEval
  | Prune criterion device int int int
  | CheckSparsity real
  | EvalPPL device real
  | MakeDirs string
  | WriteLog string "string list"
  | SaveModel string
  | SaveTokenizer string

record 'm report =
  final_model :: 'm
  actual_sparsity :: real
  ppl :: real

subsection \<open>The steps of \<^verbatim>\<open>main\<close>\<close>

text \<open>
  \<^verbatim>\<open>get_llm\<close> (main.py lines 16 to 62): the family by substring of the lowered
  identifier, first match first.
\<close>

definition get_llm ::
  "('m, 't) host \<Rightarrow> string \<Rightarrow> string \<Rightarrow> event list \<times> (error + ('m \<times> processor option))" where
  "get_llm H model_id cache =
     (if contains ''llava'' (lower model_id) then
        (if llava_importable H
         then ([GetLLM Llava model_id cache],
               Inr (from_pretrained H Llava model_id cache, None))
         else ([], Inl ImportError))
      else if contains ''qwen2.5-vl'' (lower model_id) \<or> contains ''vl'' (lower model_id) then
        ([GetLLM Vision2Seq model_id cache],
         Inr (from_pretrained H Vision2Seq model_id cache, Some AutoProcessor))
      else
        ([GetLLM CausalLM model_id cache],
         Inr (from_pretrained H CausalLM model_id cache, None)))"

text \<open>Lines 91 to 94: \<^verbatim>\<open>prune_n, prune_m\<close>.\<close>

definition parse_n_m :: "string \<Rightarrow> error + (int \<times> int)" where
  "parse_n_m s =
     (case map py_int (split_on CHR '':'' s) of
        [Some n, Some m] \<Rightarrow> Inr (n, m)
      | _ \<Rightarrow> Inl ValueError)"

definition configure :: "args \<Rightarrow> error + (int \<times> int)" where
  "configure a =
     (if sparsity_type a \<noteq> Some ''unstructured'' then
        (if sparsity_ratio a = 0.5 then
           (case sparsity_type a of
              None \<Rightarrow> Inl AttributeError
            | Some s \<Rightarrow> parse_n_m s)
         else Inl AssertionError)
      else Inr (0, 0))"

text \<open>Lines 101 to 120: the tokenizer, with the fallback of each \<^verbatim>\<open>try\<close>.\<close>

definition or_auto_tokenizer :: "('m, 't) host \<Rightarrow> 't option \<Rightarrow> string \<Rightarrow> error + 't" where
  "or_auto_tokenizer H first model_id =
     (case first of
        Some t \<Rightarrow> Inr t
      | None \<Rightarrow> (case auto_tokenizer H model_id of Some t \<Rightarrow> Inr t | None \<Rightarrow> Inl LoadError))"

definition resolve_tokenizer ::
  "('m, 't) host \<Rightarrow> string \<Rightarrow> processor option \<Rightarrow> error + 't" where
  "resolve_tokenizer H model_id proc =
     (if proc \<noteq> None then
        or_auto_tokenizer H (auto_tokenizer H (path_join model_id ''language_model'')) model_id
      else if contains ''llava'' (lower model_id) then
        or_auto_tokenizer H (llama_tokenizer H model_id) model_id
      else
        (case auto_tokenizer H model_id of Some t \<Rightarrow> Inr t | None \<Rightarrow> Inl LoadError))"

text \<open>Lines 122 to 124: the device.\<close>

definition select_device :: "string \<Rightarrow> (string \<Rightarrow> placement option) \<Rightarrow> error + device" where
  "select_device model_id device_map =
     (if contains ''30b'' model_id \<or> contains ''65b'' model_id \<or> contains ''70b'' model_id then
        (case device_map ''lm_head'' of
           None \<Rightarrow> Inl KeyError
         | Some p \<Rightarrow> Inr (HfPlacement p))
      else Inr (TorchDevice ''cuda:0''))"

text \<open>Lines 130 to 132: the name of the calibration corpus.\<close>

definition select_corpus :: "string \<Rightarrow> string" where
  "select_corpus model_id =
     (if contains ''qwen2.5-vl'' (lower model_id) \<or> contains ''vl'' (lower model_id)
      then ''qwen2.5-vl'' else ''c4'')"

text \<open>Lines 135 to 144: the chain over \<^verbatim>\<open>args.prune_method\<close>; it has no \<^verbatim>\<open>else\<close>.\<close>

definition dispatch ::
  "('m, 't) host \<Rightarrow> args \<Rightarrow> 'm \<Rightarrow> 't \<Rightarrow> device \<Rightarrow> int \<Rightarrow> int \<Rightarrow> int \<Rightarrow> 'm \<times> event list" where
  "dispatch H a m tk dev prune_n prune_m idx =
     (if prune_method a = Some ''wanda'' then
        (prune_wanda H a m tk dev prune_n prune_m idx, [Prune Wanda dev prune_n prune_m idx])
      else if prune_method a = Some ''gblm'' then
        (prune_gblm H a m tk dev prune_n prune_m idx, [Prune Gblm dev prune_n prune_m idx])
      else if prune_method a = Some ''magnitude'' then
        (prune_magnitude H a m tk dev prune_n prune_m idx, [Prune Magnitude dev prune_n prune_m idx])
      else if prune_method a = Some ''gradient'' then
        (prune_gradient H a m tk dev prune_n prune_m idx, [Prune Gradient dev prune_n prune_m idx])
      else if prune_method a = Some ''sparsegpt'' then
        (prune_sparsegpt H a m tk dev prune_n prune_m idx, [Prune Sparsegpt dev prune_n prune_m idx])
      else (m, []))"

text \<open>
  The empty path on every file system: \<^verbatim>\<open>os.path.exists('')\<close> is false and
  \<^verbatim>\<open>os.makedirs('')\<close> raises FileNotFoundError. Any other path is up to the host.
\<close>

definition os_path_exists :: "('m, 't) host \<Rightarrow> string \<Rightarrow> bool" where
  "os_path_exists H path = (path \<noteq> [] \<and> path_exists H path)"

definition os_makedirs :: "('m, 't) host \<Rightarrow> string \<Rightarrow> error option" where
  "os_makedirs H path = (if path = [] then Some FileNotFoundError else makedirs H path)"

text \<open>
  Lines 155 to 164: the directory, the log of two lines, and the model when
  \<^verbatim>\<open>--save_model\<close> is given (an empty one is falsy). \<^verbatim>\<open>os.path.exists(None)\<close> raises
  TypeError. The result is the calls that succeeded and the exception that ended them,
  if any.
\<close>

definition persist ::
  "('m, 't) host \<Rightarrow> args \<Rightarrow> 'm \<Rightarrow> 't \<Rightarrow> real \<Rightarrow> real \<Rightarrow> event list \<times> error option" where
  "persist H a m tk ratio perplexity =
     (case save a of
        None \<Rightarrow> ([], Some TypeError)
      | Some dir \<Rightarrow>
          (case (if \<not> os_path_exists H dir
                 then (case os_makedirs H dir of
                         Some e \<Rightarrow> Inl e
                       | None \<Rightarrow> Inr [MakeDirs dir])
                 else Inr []) of
             Inl e \<Rightarrow> ([], Some e)
           | Inr made \<Rightarrow>
               (let save_filepath = path_join dir ''log.txt''
                in case open_write H save_filepath of
                     Some e \<Rightarrow> (made, Some e)
                   | None \<Rightarrow>
                       (let logged = [WriteLog save_filepath
                                        [''actual_sparsity'' @ [CHR 0x09] @ ''ppl'',
                                         format_4f H ratio @ [CHR 0x09]
                                           @ format_4f H perplexity]]
                        in case save_model a of
                             None \<Rightarrow> (made @ logged, None)
                           | Some path \<Rightarrow>
                               if path = [] then (made @ logged, None)
                               else
                                 (case save_pretrained H m path of
                                    Some e \<Rightarrow> (made @ logged, Some e)
                                  | None \<Rightarrow>
                                      (case tokenizer_save_pretrained H tk path of
                                         Some e \<Rightarrow> (made @ logged @ [SaveModel path], Some e)
                                       | None \<Rightarrow>
                                           (made @ logged @ [SaveModel path, SaveTokenizer path],
                                            None)))))))"

text \<open>
  Lines 133 to 165, with \<^verbatim>\<open>dataset_name\<close> in scope: pruning, audit, evaluation and
  persistence.
\<close>

definition prune_and_report ::
  "('m, 't) host \<Rightarrow> args \<Rightarrow> 'm \<Rightarrow> 't \<Rightarrow> device \<Rightarrow> int \<Rightarrow> int \<Rightarrow> int \<Rightarrow> string
   \<Rightarrow> event list \<times> (error + 'm report)" where
  "prune_and_report H a m tk dev prune_n prune_m idx dataset_name =
     (let (m', pruned) =
            (if sparsity_ratio a \<noteq> 0 then dispatch H a m tk dev prune_n prune_m idx
             else (m, []));
          ratio = check_sparsity H m' a;
          perplexity = eval_ppl H m' tk dev;
          measured = pruned @ [CheckSparsity ratio, EvalPPL dev perplexity];
          (persisted, raised) = persist H a m' tk ratio perplexity
      in (measured @ persisted,
          case raised of
            Some e \<Rightarrow> Inl e
          | None \<Rightarrow> Inr \<lparr>final_model = m', actual_sparsity = ratio, ppl = perplexity\<rparr>))"

text \<open>
  Lines 86 to 125: configuration, loading, tokenizer and device. The seeding of numpy
  and torch in lines 87 and 88 touches neither the arguments nor the model and is left
  out. \<^verbatim>\<open>args.model.split\<close> in line 96 raises AttributeError without \<^verbatim>\<open>--model\<close>.
\<close>

definition set_up ::
  "('m, 't) host \<Rightarrow> args
   \<Rightarrow> event list \<times> (error + (string \<times> 'm \<times> 't \<times> device \<times> int \<times> int))" where
  "set_up H a =
     (case configure a of
        Inl e \<Rightarrow> ([], Inl e)
      | Inr (prune_n, prune_m) \<Rightarrow>
          (case model a of
             None \<Rightarrow> ([], Inl AttributeError)
           | Some model_id \<Rightarrow>
               (case get_llm H model_id (cache_dir a) of
                  (calls, Inl e) \<Rightarrow> (calls, Inl e)
                | (calls, Inr (m, proc)) \<Rightarrow>
                    (case resolve_tokenizer H model_id proc of
                       Inl e \<Rightarrow> (calls @ [ModelEval], Inl e)
                     | Inr tk \<Rightarrow>
                         (case select_device model_id (hf_device_map H m) of
                            Inl e \<Rightarrow> (calls @ [ModelEval], Inl e)
                          | Inr dev \<Rightarrow>
                              (calls @ [ModelEval],
                               Inr (model_id, m, tk, dev, prune_n, prune_m)))))))"

definition main :: "('m, 't) host \<Rightarrow> args \<Rightarrow> event list \<times> (error + 'm report)" where
  "main H a =
     (case set_up H a of
        (calls, Inl e) \<Rightarrow> (calls, Inl e)
      | (calls, Inr (model_id, m, tk, dev, prune_n, prune_m)) \<Rightarrow>
          (let idx = layer_no a;
               dataset_name = select_corpus model_id;
               (later, outcome) = prune_and_report H a m tk dev prune_n prune_m idx dataset_name
           in (calls @ later, outcome)))"

text \<open>The criteria a trace invoked, in order.\<close>

fun criteria_invoked :: "event list \<Rightarrow> criterion list" where
  "criteria_invoked [] = []"
| "criteria_invoked (Prune c dev n m idx # es) = c # criteria_invoked es"
| "criteria_invoked (e # es) = criteria_invoked es"


text \<open>An event that names a device names this one.\<close>

definition device_is :: "device \<Rightarrow> event \<Rightarrow> bool" where
  "device_is dev e =
     (case e of Prune c d n k idx \<Rightarrow> d = dev | EvalPPL d v \<Rightarrow> d = dev | _ \<Rightarrow> True)"

subsection \<open>A host and arguments to run \<^verbatim>\<open>main\<close> on\<close>

text \<open>
  Weights are the list of criteria applied to them, tokenizers the path they were loaded
  from.
\<close>

definition stub_host :: "(criterion list, string) host" where
  "stub_host =
     \<lparr>llava_importable = True,
      from_pretrained = (\<lambda>fam model_id cache. []),
      hf_device_map = (\<lambda>m. [''lm_head'' \<mapsto> Gpu 1]),
      auto_tokenizer = (\<lambda>path. Some path),
      llama_tokenizer = (\<lambda>path. None),
      prune_wanda = (\<lambda>a m tk dev n k idx. m @ [Wanda]),
      prune_gblm = (\<lambda>a m tk dev n k idx. m @ [Gblm]),
      prune_magnitude = (\<lambda>a m tk dev n k idx. m @ [Magnitude]),
      prune_gradient = (\<lambda>a m tk dev n k idx. m @ [Gradient]),
      prune_sparsegpt = (\<lambda>a m tk dev n k idx. m @ [Sparsegpt]),
      check_sparsity = (\<lambda>m a. if m = [] then 0 else sparsity_ratio a),
      eval_ppl = (\<lambda>m tk dev. 5 + of_nat (length m)),
      path_exists = (\<lambda>path. False),
      makedirs = (\<lambda>path. None),
      open_write = (\<lambda>path. None),
      save_pretrained = (\<lambda>m path. None),
      tokenizer_save_pretrained = (\<lambda>tk path. None),
      format_4f = (\<lambda>x. if x = 0 then ''0.0000'' else if x = 5 then ''5.0000'' else ''?'')\<rparr>"

definition stub_args :: "real \<Rightarrow> string \<Rightarrow> string \<Rightarrow> args" where
  "stub_args ratio pattern model_id =
     \<lparr>model = Some model_id,
      gradient_path = None,
      grad_norm = ''none'',
      seed = 0,
      nsamples = 128,
      seq_length = 2048,
      sparsity_ratio = ratio,
      layer_no = - 1,
      sparsity_type = Some pattern,
      prune_method = Some ''wanda'',
      cache_dir = ''./llm_weights'',
      use_variant = False,
      save = Some ''out'',
      save_model = None,
      grad_exponent = False,
      gradient_inv = False\<rparr>"

section \<open>Properties of the shared Python values\<close>

text \<open>The substring test is the one of the string library: some prefix and some rest around it.\<close>

lemma starts_with_iff: "starts_with sub s \<longleftrightarrow> (\<exists>rest. s = sub @ rest)"
  by (induction sub s rule: starts_with.induct) auto

lemma contains_iff: "contains sub s \<longleftrightarrow> (\<exists>before rest. s = before @ sub @ rest)"
proof (induction s)
  case Nil
  then show ?case by auto
next
  case (Cons c cs)
  show ?case
  proof
    assume "contains sub (c # cs)"
    then consider "starts_with sub (c # cs)" | "contains sub cs" by auto
    then show "\<exists>before rest. c # cs = before @ sub @ rest"
    proof cases
      case 1
      then obtain rest where "c # cs = sub @ rest" by (auto simp: starts_with_iff)
      then have "c # cs = [] @ sub @ rest" by simp
      then show ?thesis by blast
    next
      case 2
      with Cons.IH obtain before rest where "cs = before @ sub @ rest" by blast
      then have "c # cs = (c # before) @ sub @ rest" by simp
      then show ?thesis by blast
    qed
  next
    assume "\<exists>before rest. c # cs = before @ sub @ rest"
    then obtain before rest where eq: "c # cs = before @ sub @ rest" by blast
    show "contains sub (c # cs)"
    proof (cases before)
      case Nil
      with eq have "starts_with sub (c # cs)" by (auto simp: starts_with_iff)
      then show ?thesis by simp
    next
      case (Cons b bs)
      with eq have "cs = bs @ sub @ rest" by simp
      with Cons.IH have "contains sub cs" by blast
      then show ?thesis by simp
    qed
  qed
qed

text \<open>A slice that lies inside the list is a take of a drop.\<close>

lemma py_slice_inside:
  assumes "0 \<le> i" "0 \<le> s" "i + s \<le> int (length xs)"
  shows "py_slice xs i (i + s) = take (nat s) (drop (nat i) xs)"
  using assms by (simp add: py_slice_def clamp_index_def Let_def min_def)

lemma length_py_slice_inside:
  assumes "0 \<le> i" "0 \<le> s" "i + s \<le> int (length xs)"
  shows "int (length (py_slice xs i (i + s))) = s"
  using assms by (simp add: py_slice_inside)

lemma py_slice_prefix: "0 \<le> k \<Longrightarrow> py_slice xs 0 k = take (nat k) xs"
  by (simp add: py_slice_def clamp_index_def Let_def min_def)

section \<open>Properties of the sampler\<close>

subsection \<open>One iteration: the offset and the window\<close>

lemma draw_offset_bounds:
  assumes "randint_in_range R" and "draw_offset R enc seqlen g = Inr (i, g')"
  shows "0 \<le> i \<and> i + seqlen \<le> int (length (input_ids enc)) - 1"
proof -
  let ?b = "int (length (input_ids enc)) - seqlen - 1"
  from assms(2) have nonempty: "0 \<le> ?b" and eq: "rng_draw R g 0 ?b = (i, g')"
    by (auto simp: draw_offset_def randint_def split: if_splits)
  from assms(1) nonempty have "0 \<le> fst (rng_draw R g 0 ?b) \<and> fst (rng_draw R g 0 ?b) \<le> ?b"
    unfolding randint_in_range_def by blast
  with eq show ?thesis by simp
qed

lemma draw_offset_short:
  "int (length (input_ids enc)) \<le> seqlen \<Longrightarrow> draw_offset R enc seqlen g = Inl ValueError"
  by (simp add: draw_offset_def randint_def)

lemma cut_window_target: "cut_window enc seqlen i = (inp, am, tar) \<Longrightarrow> tar = inp"
  by (auto simp: cut_window_def Let_def)

lemma cut_window_lengths:
  assumes "0 \<le> i" "0 \<le> seqlen" "i + seqlen \<le> int (length (input_ids enc))"
    and "length (attention_mask enc) = length (input_ids enc)"
    and "cut_window enc seqlen i = (inp, am, tar)"
  shows "int (length inp) = seqlen \<and> int (length am) = seqlen \<and> int (length tar) = seqlen"
  using assms by (auto simp: cut_window_def Let_def length_py_slice_inside)

subsection \<open>Invariants of the loops\<close>

text \<open>
  What holds of the samples collected so far and of every window a successful offset
  draw cuts, holds of every sample the loop returns.
\<close>

lemma wikitext2_loop_all:
  assumes "wikitext2_loop R enc seqlen k g acc = Inr (out, g')"
    and "\<forall>s \<in> set acc. P s"
    and "\<And>i ga gb. draw_offset R enc seqlen ga = Inr (i, gb) \<Longrightarrow> P (cut_window enc seqlen i)"
  shows "\<forall>s \<in> set out. P s"
  using assms(1,2)
proof (induction k arbitrary: g acc)
  case 0
  then show ?case by simp
next
  case (Suc k)
  from Suc.prems(1) obtain i g1 where d: "draw_offset R enc seqlen g = Inr (i, g1)"
    and rest: "wikitext2_loop R enc seqlen k g1 (acc @ [cut_window enc seqlen i]) = Inr (out, g')"
    by (auto split: sum.splits)
  have "\<forall>s \<in> set (acc @ [cut_window enc seqlen i]). P s"
    using Suc.prems(2) assms(3)[OF d] by simp
  with Suc.IH rest show ?case by blast
qed

text \<open>
  The rejection loop is a partial function; what it returns is characterised by the
  induction rule of its fixed point.
\<close>

lemma c4_retry_found:
  assumes "c4_retry R tk traindata max_length seqlen g = Some r"
  shows "found_ok tk traindata max_length seqlen r"
proof -
  have step: "found_ok tk traindata max_length seqlen r"
    if IH: "\<And>R tk traindata max_length seqlen g r.
              f R tk traindata max_length seqlen g = Some r \<Longrightarrow>
              found_ok tk traindata max_length seqlen r"
      and body: "(case randint R g 0 (int (length traindata) - 1) of
            Inl e \<Rightarrow> Some (Inl e)
          | Inr (i, g') \<Rightarrow>
              (case py_index traindata i of
                 Inl e \<Rightarrow> Some (Inl e)
               | Inr text \<Rightarrow>
                   (let trainenc = encode tk text max_length
                    in if int (length (input_ids trainenc)) > seqlen
                       then Some (Inr (trainenc, g'))
                       else f R tk traindata max_length seqlen g'))) = Some r"
    for f :: "'g random_module \<Rightarrow> tokenizer \<Rightarrow> string list \<Rightarrow> int \<Rightarrow> int \<Rightarrow> 'g
              \<Rightarrow> (error + (encoding \<times> 'g)) option"
      and R tk traindata max_length seqlen g r
  proof (cases "randint R g 0 (int (length traindata) - 1)")
    case (Inl e)
    with body show ?thesis by (auto simp: found_ok_def)
  next
    case (Inr p)
    obtain i g1 where p: "p = (i, g1)" by (cases p)
    show ?thesis
    proof (cases "py_index traindata i")
      case (Inl e)
      with body Inr p show ?thesis by (auto simp: found_ok_def)
    next
      case rec: (Inr doc)
      then have mem: "doc \<in> set traindata"
        by (auto simp: py_index_def Let_def split: if_splits)
      show ?thesis
      proof (cases "seqlen < int (length (input_ids (encode tk doc max_length)))")
        case True
        with body Inr p rec mem show ?thesis by (auto simp: Let_def found_ok_def)
      next
        case False
        with body Inr p rec have "f R tk traindata max_length seqlen g1 = Some r"
          by (simp add: Let_def)
        then show ?thesis by (rule IH)
      qed
    qed
  qed
  show ?thesis
    by (rule c4_retry.raw_induct
          [where P = "\<lambda>R tk traindata max_length seqlen g r. found_ok tk traindata max_length seqlen r",
            OF step assms])
qed

lemma c4_loop_all:
  assumes "c4_loop R tk traindata ml seqlen k g acc = Some (Inr (out, g'))"
    and "\<forall>s \<in> set acc. P s"
    and "\<And>enc ga gb gc gd i. c4_retry R tk traindata ml seqlen ga = Some (Inr (enc, gb)) \<Longrightarrow>
           draw_offset R enc seqlen gc = Inr (i, gd) \<Longrightarrow> P (cut_window enc seqlen i)"
  shows "\<forall>s \<in> set out. P s"
  using assms(1,2)
proof (induction k arbitrary: g acc)
  case 0
  then show ?case by simp
next
  case (Suc k)
  from Suc.prems(1) obtain enc g1 i g2 where
    r: "c4_retry R tk traindata ml seqlen g = Some (Inr (enc, g1))"
    and d: "draw_offset R enc seqlen g1 = Inr (i, g2)"
    and rest: "c4_loop R tk traindata ml seqlen k g2 (acc @ [cut_window enc seqlen i])
                 = Some (Inr (out, g'))"
    by (auto split: option.splits sum.splits)
  have "\<forall>s \<in> set (acc @ [cut_window enc seqlen i]). P s"
    using Suc.prems(2) assms(3)[OF r d] by simp
  with Suc.IH rest show ?case by blast
qed

subsection \<open>The small generator and tokenizer honour the contracts\<close>

lemma randint_in_range_counter: "randint_in_range counter_rng"
proof -
  have "a + int g mod (b - a + 1) \<le> b \<and> a \<le> a + int g mod (b - a + 1)" if "a \<le> b" for a b :: int and g :: nat
  proof -
    from that have pos: "0 < b - a + 1" by simp
    have "int g mod (b - a + 1) < b - a + 1" "0 \<le> int g mod (b - a + 1)"
      using pos by (rule pos_mod_bound, rule pos_mod_sign)
    then show ?thesis by linarith
  qed
  then show ?thesis
    by (simp add: randint_in_range_def counter_rng_def)
qed

lemma aligned_mask_char: "aligned_mask (char_tokenizer m)"
  by (simp add: aligned_mask_def char_tokenizer_def Let_def)

subsection \<open>The loaders\<close>

lemma get_loaders_cases:
  assumes "get_loaders R D name num_samples seed_value seqlen tk g0 = Some (Inr (Loaders trainloader ev, g))"
  shows "get_wikitext2 R D num_samples seed_value seqlen tk g0 = Inr (Loaders trainloader ev, g)
       \<or> get_c4 R D num_samples seed_value seqlen tk g0 = Some (Inr (Loaders trainloader ev, g))"
  using assms by (auto simp: get_loaders_def split: if_splits)

lemma get_c4_loop:
  assumes "get_c4 R D num_samples seed_value seqlen tk g0 = Some (Inr (Loaders trainloader ev, g))"
  shows "c4_loop R tk (c4_train D) (max_length_of tk seqlen) seqlen (nat num_samples)
           (rng_seed R seed_value) [] = Some (Inr (trainloader, g))"
    and "ev = TokenizerWrapper (c4_valenc tk (c4_validation D) (max_length_of tk seqlen) seqlen)"
  using assms by (auto simp: get_c4_def Let_def split: option.splits sum.splits)

lemma get_c4_all:
  assumes "get_c4 R D num_samples seed_value seqlen tk g0 = Some (Inr (Loaders trainloader ev, g))"
    and "\<And>enc ga gb gc gd i.
           c4_retry R tk (c4_train D) (max_length_of tk seqlen) seqlen ga = Some (Inr (enc, gb)) \<Longrightarrow>
           draw_offset R enc seqlen gc = Inr (i, gd) \<Longrightarrow> P (cut_window enc seqlen i)"
  shows "\<forall>s \<in> set trainloader. P s"
  by (rule c4_loop_all [OF get_c4_loop(1) [OF assms(1)]]) (simp, rule assms(2))

lemma window_shape:
  assumes R: "randint_in_range R" and tk: "aligned_mask tk" and len: "0 \<le> seqlen"
    and d: "draw_offset R (encode tk doc n) seqlen ga = Inr (i, gb)"
  shows "case cut_window (encode tk doc n) seqlen i of
           (inp, am, tar) \<Rightarrow> int (length inp) = seqlen \<and> int (length am) = seqlen
              \<and> int (length tar) = seqlen \<and> tar = inp"
proof -
  obtain inp am tar where c: "cut_window (encode tk doc n) seqlen i = (inp, am, tar)"
    by (cases "cut_window (encode tk doc n) seqlen i") auto
  from draw_offset_bounds [OF R d]
  have b: "0 \<le> i" "i + seqlen \<le> int (length (input_ids (encode tk doc n)))" by simp_all
  from tk have al: "length (attention_mask (encode tk doc n)) = length (input_ids (encode tk doc n))"
    by (simp add: aligned_mask_def)
  from cut_window_lengths [OF b(1) len b(2) al c] cut_window_target [OF c] c
  show ?thesis by simp
qed

text \<open>
  Claim C3. Every sample a loader returns, on the wikitext2 path or on the c4 path, has
  an input window, an attention window and a target window of exactly \<open>seqlen\<close>
  entries, and the target window equals the input window. The sequence length is a
  length (not negative), the generator keeps its draws inside the requested range, and
  the tokenizer returns a mask as long as the ids.
\<close>

theorem sample_windows_have_length_seqlen:
  assumes run: "get_loaders R D name num_samples seed_value seqlen tk g0 = Some (Inr (Loaders trainloader ev, g))"
    and R: "randint_in_range R" and tk: "aligned_mask tk" and len: "0 \<le> seqlen"
    and mem: "(inp, am, tar) \<in> set trainloader"
  shows "int (length inp) = seqlen \<and> int (length am) = seqlen \<and> int (length tar) = seqlen
         \<and> tar = inp"
proof -
  let ?P = "\<lambda>s. case s of (inp, am, tar) \<Rightarrow> int (length inp) = seqlen \<and> int (length am) = seqlen
              \<and> int (length tar) = seqlen \<and> tar = inp"
  have "\<forall>s \<in> set trainloader. ?P s"
    using get_loaders_cases [OF run]
  proof
    assume w: "get_wikitext2 R D num_samples seed_value seqlen tk g0 = Inr (Loaders trainloader ev, g)"
    let ?enc = "encode tk (join '' '' (wikitext2_train D)) (max_length_of tk seqlen)"
    from w have
      "wikitext2_loop R ?enc seqlen (nat num_samples) (rng_seed R seed_value) [] = Inr (trainloader, g)"
      by (auto simp: get_wikitext2_def Let_def split: sum.splits)
    then show ?thesis
      by (rule wikitext2_loop_all) (simp, rule window_shape [OF R tk len])
  next
    assume c: "get_c4 R D num_samples seed_value seqlen tk g0 = Some (Inr (Loaders trainloader ev, g))"
    show ?thesis
    proof (rule get_c4_all [OF c])
      fix enc ga gb gc gd i
      assume f: "c4_retry R tk (c4_train D) (max_length_of tk seqlen) seqlen ga = Some (Inr (enc, gb))"
        and d: "draw_offset R enc seqlen gc = Inr (i, gd)"
      from c4_retry_found [OF f] obtain doc where e: "enc = encode tk doc (max_length_of tk seqlen)"
        by (auto simp: found_ok_def)
      from d have "?P (cut_window (encode tk doc (max_length_of tk seqlen)) seqlen i)"
        unfolding e by (rule window_shape [OF R tk len])
      then show "?P (cut_window enc seqlen i)"
        unfolding e .
    qed
  qed
  then have "?P (inp, am, tar)" using mem by (rule bspec)
  then show ?thesis by simp
qed

text \<open>The small c4 corpus through \<open>get_loaders\<close>: the first sample has three entries in each window.\<close>

theorem sample_windows_have_length_seqlen_witness:
  "get_loaders counter_rng stub_corpora ''c4'' 2 0 3 (char_tokenizer (Some 100)) (0::nat)
     = Some (Inr (Loaders [([99, 100, 101], [1, 1, 1], [99, 100, 101]),
                           ([98, 99, 100], [1, 1, 1], [98, 99, 100])]
                    (TokenizerWrapper [117, 118, 119, 32, 122]), 5))
   \<and> (int (length [99, 100, 101 :: int]) = 3 \<and> int (length [1, 1, 1 :: int]) = 3
      \<and> int (length [99, 100, 101 :: int]) = 3 \<and> [99, 100, 101] = [99, 100, 101 :: int])"
proof -
  have run: "get_loaders counter_rng stub_corpora ''c4'' 2 0 3 (char_tokenizer (Some 100)) (0::nat)
     = Some (Inr (Loaders [([99, 100, 101], [1, 1, 1], [99, 100, 101]),
                           ([98, 99, 100], [1, 1, 1], [98, 99, 100])]
                    (TokenizerWrapper [117, 118, 119, 32, 122]), 5))"
    by code_simp
  have mem: "([99, 100, 101], [1, 1, 1], [99, 100, 101]) \<in>
     set [([99, 100, 101], [1, 1, 1], [99, 100, 101 :: int]),
          ([98, 99, 100], [1, 1, 1 :: int], [98, 99, 100 :: int])]"
    by simp
  have len: "(0::int) \<le> 3" by simp
  show ?thesis
    by (rule conjI [OF run sample_windows_have_length_seqlen
          [OF run randint_in_range_counter aligned_mask_char len mem]])
qed

text \<open>
  Claim C1. The sampler is a function of corpus name, sample count, seed, sequence length
  and tokenizer alone: whatever state the global generator was left in before the call,
  \<^verbatim>\<open>random.seed(seed)\<close> replaces it, so two invocations with the same five inputs return
  the same samples in the same order, the same evaluation encoding and the same final
  generator state (hence the same offsets and, for c4, the same record choices). This
  holds for \<open>get_wikitext2\<close>, for \<open>get_c4\<close> (also when it raises or never returns), and
  for what \<open>get_loaders\<close> returns under any name.
\<close>

theorem sampler_ignores_prior_generator_state:
  "get_wikitext2 R D num_samples seed_value seqlen tk g0 = get_wikitext2 R D num_samples seed_value seqlen tk g0'
   \<and> get_c4 R D num_samples seed_value seqlen tk g0 = get_c4 R D num_samples seed_value seqlen tk g0'
   \<and> map_option (map_sum id fst) (get_loaders R D name num_samples seed_value seqlen tk g0)
       = map_option (map_sum id fst) (get_loaders R D name num_samples seed_value seqlen tk g0')"
  by (simp add: get_wikitext2_def get_c4_def get_loaders_def)

text \<open>
  Claim C4. In a sampling iteration over an encoding of \<open>L\<close> tokens with
  \<open>L > seqlen\<close>, the start offset is the generator's draw from the inclusive range
  \<open>0 .. L - seqlen - 1\<close>; it lies in that range, so \<open>offset + seqlen \<le> L\<close> and the
  slice never reads past the end. With \<open>L \<le> seqlen\<close> the range is empty and the draw
  raises ValueError.
\<close>

theorem offset_draw_stays_inside:
  assumes "randint_in_range R"
  shows "let L = int (length (input_ids trainenc)) in
         if seqlen < L
         then let i = fst (rng_draw R g 0 (L - seqlen - 1)) in
              draw_offset R trainenc seqlen g = Inr (rng_draw R g 0 (L - seqlen - 1))
              \<and> 0 \<le> i \<and> i \<le> L - seqlen - 1 \<and> i + seqlen \<le> L
         else draw_offset R trainenc seqlen g = Inl ValueError"
proof (cases "seqlen < int (length (input_ids trainenc))")
  case True
  let ?b = "int (length (input_ids trainenc)) - seqlen - 1"
  from True have "0 \<le> ?b" by simp
  with assms have "0 \<le> fst (rng_draw R g 0 ?b) \<and> fst (rng_draw R g 0 ?b) \<le> ?b"
    unfolding randint_in_range_def by blast
  with True show ?thesis
    by (simp add: Let_def draw_offset_def randint_def)
next
  case False
  then show ?thesis by (simp add: draw_offset_short Let_def)
qed

text \<open>Five tokens, windows of three, generator state 4: the draw from \<open>0..1\<close> is 0.\<close>

theorem offset_draw_stays_inside_witness:
  "(let L = int (length (input_ids \<lparr>input_ids = [5, 6, 7, 8, 9], attention_mask = [1, 1, 1, 1, 1]\<rparr>)) in
      if 3 < L
      then let i = fst (rng_draw counter_rng (4::nat) 0 (L - 3 - 1)) in
           draw_offset counter_rng \<lparr>input_ids = [5, 6, 7, 8, 9], attention_mask = [1, 1, 1, 1, 1]\<rparr> 3 4
             = Inr (rng_draw counter_rng 4 0 (L - 3 - 1))
           \<and> 0 \<le> i \<and> i \<le> L - 3 - 1 \<and> i + 3 \<le> L
      else draw_offset counter_rng \<lparr>input_ids = [5, 6, 7, 8, 9], attention_mask = [1, 1, 1, 1, 1]\<rparr> 3 4
             = Inl ValueError)
   \<and> draw_offset counter_rng \<lparr>input_ids = [5, 6, 7, 8, 9], attention_mask = [1, 1, 1, 1, 1]\<rparr> 3 (4::nat)
       = Inr (0, 5)"
proof -
  have "draw_offset counter_rng \<lparr>input_ids = [5, 6, 7, 8, 9], attention_mask = [1, 1, 1, 1, 1]\<rparr> 3 (4::nat)
          = Inr (0, 5)"
    by code_simp
  with offset_draw_stays_inside [OF randint_in_range_counter] show ?thesis by (rule conjI)
qed

text \<open>Two samples of three tokens from the small c4 corpus, seed 0.\<close>

lemma stub_c4_run:
  "get_c4 counter_rng stub_corpora 2 0 3 (char_tokenizer (Some 100)) (0::nat)
     = Some (Inr (Loaders [([99, 100, 101], [1, 1, 1], [99, 100, 101]),
                           ([98, 99, 100], [1, 1, 1], [98, 99, 100])]
                    (TokenizerWrapper [117, 118, 119, 32, 122]), 5))"
  by code_simp

text \<open>
  Claim C5. Every sample \<open>get_c4\<close> returns was cut from the tokenization of a record of
  the train split that has strictly more than \<open>seqlen\<close> tokens (under the
  \<open>max_length\<close> cap), at an offset that keeps the whole window inside it; the window is
  a slice of that record and not shorter than \<open>seqlen\<close>.
\<close>

theorem c4_window_cut_from_long_record:
  assumes run: "get_c4 R D num_samples seed_value seqlen tk g0 = Some (Inr (Loaders trainloader ev, g))"
    and R: "randint_in_range R"
    and mem: "s \<in> set trainloader"
  shows "\<exists>doc \<in> set (c4_train D). \<exists>i.
           seqlen < int (length (input_ids (encode tk doc (max_length_of tk seqlen))))
           \<and> 0 \<le> i
           \<and> i + seqlen \<le> int (length (input_ids (encode tk doc (max_length_of tk seqlen))))
           \<and> s = cut_window (encode tk doc (max_length_of tk seqlen)) seqlen i
           \<and> seqlen \<le> int (length (fst s))"
proof -
  let ?ml = "max_length_of tk seqlen"
  let ?P = "\<lambda>s. \<exists>doc \<in> set (c4_train D). \<exists>i.
           seqlen < int (length (input_ids (encode tk doc ?ml)))
           \<and> 0 \<le> i \<and> i + seqlen \<le> int (length (input_ids (encode tk doc ?ml)))
           \<and> s = cut_window (encode tk doc ?ml) seqlen i
           \<and> seqlen \<le> int (length (fst s))"
  have "\<forall>s \<in> set trainloader. ?P s"
  proof (rule get_c4_all [OF run])
    fix enc ga gb gc gd i
    assume f: "c4_retry R tk (c4_train D) ?ml seqlen ga = Some (Inr (enc, gb))"
      and d: "draw_offset R enc seqlen gc = Inr (i, gd)"
    from c4_retry_found [OF f] obtain doc where doc: "doc \<in> set (c4_train D)"
      and e: "enc = encode tk doc ?ml" and long: "seqlen < int (length (input_ids enc))"
      by (auto simp: found_ok_def)
    from draw_offset_bounds [OF R d] have b: "0 \<le> i" "i + seqlen \<le> int (length (input_ids enc))"
      by simp_all
    have "seqlen \<le> int (length (fst (cut_window enc seqlen i)))"
    proof (cases "0 \<le> seqlen")
      case True
      with b show ?thesis
        by (simp add: cut_window_def Let_def length_py_slice_inside)
    next
      case False
      then show ?thesis by simp
    qed
    with doc long b show "?P (cut_window enc seqlen i)"
      unfolding e by blast
  qed
  then show ?thesis using mem by (rule bspec)
qed

text \<open>The same run, and the record its second window was cut from.\<close>

theorem c4_window_cut_from_long_record_witness:
  "get_c4 counter_rng stub_corpora 2 0 3 (char_tokenizer (Some 100)) (0::nat)
     = Some (Inr (Loaders [([99, 100, 101], [1, 1, 1], [99, 100, 101]),
                           ([98, 99, 100], [1, 1, 1], [98, 99, 100])]
                    (TokenizerWrapper [117, 118, 119, 32, 122]), 5))
   \<and> (\<exists>doc \<in> set (c4_train stub_corpora). \<exists>i.
           3 < int (length (input_ids (encode (char_tokenizer (Some 100)) doc
                      (max_length_of (char_tokenizer (Some 100)) 3))))
           \<and> 0 \<le> i
           \<and> i + 3 \<le> int (length (input_ids (encode (char_tokenizer (Some 100)) doc
                      (max_length_of (char_tokenizer (Some 100)) 3))))
           \<and> ([98, 99, 100], [1, 1, 1], [98, 99, 100])
               = cut_window (encode (char_tokenizer (Some 100)) doc
                      (max_length_of (char_tokenizer (Some 100)) 3)) 3 i
           \<and> 3 \<le> int (length (fst ([98, 99, 100 :: int], [1, 1, 1 :: int], [98, 99, 100 :: int]))))"
proof -
  have mem: "([98, 99, 100], [1, 1, 1], [98, 99, 100]) \<in>
     set [([99, 100, 101], [1, 1, 1], [99, 100, 101 :: int]),
          ([98, 99, 100], [1, 1, 1 :: int], [98, 99, 100 :: int])]"
    by simp
  show ?thesis
    by (rule conjI [OF stub_c4_run c4_window_cut_from_long_record
          [OF stub_c4_run randint_in_range_counter mem]])
qed

text \<open>
  Claim C7. The evaluation encoding \<open>get_c4\<close> returns is the tokenization, under the
  \<open>max_length\<close> cap, of the first 1100 validation records joined by single blanks, cut
  to its first \<open>256 * seqlen\<close> tokens; it is never longer than \<open>256 * seqlen\<close>.
\<close>

theorem c4_validation_encoding_capped:
  assumes run: "get_c4 R D num_samples seed_value seqlen tk g0 = Some (Inr (Loaders trainloader ev, g))"
    and len: "0 \<le> seqlen"
  shows "\<exists>ids. ev = TokenizerWrapper ids
           \<and> ids = take (nat (256 * seqlen))
                    (input_ids (encode tk (join '' '' (take 1100 (c4_validation D)))
                                  (max_length_of tk seqlen)))
           \<and> int (length ids) \<le> 256 * seqlen"
proof -
  from len have "0 \<le> 256 * seqlen" by simp
  then show ?thesis
    using get_c4_loop(2) [OF run]
    by (simp add: c4_valenc_def Let_def py_slice_prefix)
qed

text \<open>The same run: five validation tokens, under the cap of 768.\<close>

theorem c4_validation_encoding_capped_witness:
  "get_c4 counter_rng stub_corpora 2 0 3 (char_tokenizer (Some 100)) (0::nat)
     = Some (Inr (Loaders [([99, 100, 101], [1, 1, 1], [99, 100, 101]),
                           ([98, 99, 100], [1, 1, 1], [98, 99, 100])]
                    (TokenizerWrapper [117, 118, 119, 32, 122]), 5))
   \<and> (\<exists>ids. TokenizerWrapper [117, 118, 119, 32, 122] = TokenizerWrapper ids
           \<and> ids = take (nat (256 * 3))
                    (input_ids (encode (char_tokenizer (Some 100))
                       (join '' '' (take 1100 (c4_validation stub_corpora)))
                       (max_length_of (char_tokenizer (Some 100)) 3)))
           \<and> int (length ids) \<le> 256 * 3)"
proof -
  have len: "(0::int) \<le> 3" by simp
  show ?thesis
    by (rule conjI [OF stub_c4_run c4_validation_encoding_capped [OF stub_c4_run len]])
qed

subsection \<open>The rejection loop against its specification\<close>

lemma reaches_long:
  "reaches R tk traindata ml seqlen g enc g' \<Longrightarrow> seqlen < int (length (input_ids enc))"
  by (induction rule: reaches.induct) auto

lemma reaches_retry:
  assumes "reaches R tk traindata ml seqlen g enc g'"
  shows "c4_retry R tk traindata ml seqlen g = Some (Inr (enc, g'))"
  using assms
proof (induction rule: reaches.induct)
  case (hit g i g' enc)
  then show ?case
    by (subst c4_retry.simps) (auto simp add: randint_def py_index_def Let_def)
next
  case (miss g i g' enc g'')
  then show ?case
    by (subst c4_retry.simps) (auto simp add: randint_def py_index_def Let_def)
qed

lemma retry_reaches:
  assumes run: "c4_retry R tk traindata max_length seqlen g = Some r"
    and R: "randint_in_range R" and ne: "traindata \<noteq> []"
  shows "\<exists>enc g'. r = Inr (enc, g') \<and> reaches R tk traindata max_length seqlen g enc g'"
proof -
  have step: "retry_reached R tk traindata max_length seqlen g r"
    if IH: "\<And>R tk traindata max_length seqlen g r.
              f R tk traindata max_length seqlen g = Some r \<Longrightarrow>
              retry_reached R tk traindata max_length seqlen g r"
      and body: "(case randint R g 0 (int (length traindata) - 1) of
            Inl e \<Rightarrow> Some (Inl e)
          | Inr (i, g') \<Rightarrow>
              (case py_index traindata i of
                 Inl e \<Rightarrow> Some (Inl e)
               | Inr doc \<Rightarrow>
                   (let trainenc = encode tk doc max_length
                    in if int (length (input_ids trainenc)) > seqlen
                       then Some (Inr (trainenc, g'))
                       else f R tk traindata max_length seqlen g'))) = Some r"
    for f :: "'g random_module \<Rightarrow> tokenizer \<Rightarrow> string list \<Rightarrow> int \<Rightarrow> int \<Rightarrow> 'g
              \<Rightarrow> (error + (encoding \<times> 'g)) option"
      and R tk traindata max_length seqlen g r
    unfolding retry_reached_def
  proof
    assume "randint_in_range R \<and> traindata \<noteq> []"
    then have R: "randint_in_range R" and ne: "traindata \<noteq> []" by simp_all
    let ?b = "int (length traindata) - 1"
    from ne have nonempty: "0 \<le> ?b" by (cases traindata) simp_all
    obtain i g1 where d: "rng_draw R g 0 ?b = (i, g1)" by (cases "rng_draw R g 0 ?b")
    from R nonempty have "0 \<le> fst (rng_draw R g 0 ?b) \<and> fst (rng_draw R g 0 ?b) \<le> ?b"
      unfolding randint_in_range_def by blast
    with d have i: "0 \<le> i" "i < int (length traindata)" by simp_all
    then have idx: "py_index traindata i = Inr (traindata ! nat i)"
      by (simp add: py_index_def Let_def)
    from nonempty d have rand: "randint R g 0 ?b = Inr (i, g1)"
      by (simp add: randint_def)
    show "\<exists>enc g'. r = Inr (enc, g') \<and> reaches R tk traindata max_length seqlen g enc g'"
    proof (cases "seqlen < int (length (input_ids (encode tk (traindata ! nat i) max_length)))")
      case True
      with body rand idx have "r = Inr (encode tk (traindata ! nat i) max_length, g1)"
        by (simp add: Let_def)
      moreover have "reaches R tk traindata max_length seqlen g
                       (encode tk (traindata ! nat i) max_length) g1"
        using d i True by (rule reaches.hit [OF _ _ _ refl])
      ultimately show ?thesis by blast
    next
      case False
      with body rand idx have "f R tk traindata max_length seqlen g1 = Some r"
        by (simp add: Let_def)
      from IH [OF this] R ne obtain enc g' where r: "r = Inr (enc, g')"
        and rest: "reaches R tk traindata max_length seqlen g1 enc g'"
        unfolding retry_reached_def by blast
      from d i False rest have "reaches R tk traindata max_length seqlen g enc g'"
        by (rule reaches.miss)
      with r show ?thesis by blast
    qed
  qed
  have "retry_reached R tk traindata max_length seqlen g r"
    by (rule c4_retry.raw_induct
          [where P = "\<lambda>R tk traindata max_length seqlen g r.
                        retry_reached R tk traindata max_length seqlen g r",
            OF step run])
  with R ne show ?thesis unfolding retry_reached_def by blast
qed

lemma reaches_draw_offset:
  assumes "reaches R tk traindata ml seqlen g enc g1"
  shows "draw_offset R enc seqlen g1
           = Inr (rng_draw R g1 0 (int (length (input_ids enc)) - seqlen - 1))"
  using reaches_long [OF assms] by (simp add: draw_offset_def randint_def)

lemma iterations_loop:
  assumes "every_iteration_reaches R tk traindata ml seqlen k g"
  shows "\<exists>out g'. c4_loop R tk traindata ml seqlen k g acc = Some (Inr (out, g'))"
  using assms
proof (induction arbitrary: acc rule: every_iteration_reaches.induct)
  case (no_iteration g)
  show ?case by simp
next
  case (iteration g enc g1 g2 k)
  let ?d = "rng_draw R g1 0 (int (length (input_ids enc)) - seqlen - 1)"
  from iteration.IH [of "acc @ [cut_window enc seqlen (fst ?d)]"]
  obtain out g' where
    "c4_loop R tk traindata ml seqlen k g2 (acc @ [cut_window enc seqlen (fst ?d)])
       = Some (Inr (out, g'))"
    by blast
  with reaches_retry [OF iteration.hyps(1)] reaches_draw_offset [OF iteration.hyps(1)]
    iteration.hyps(2)
  have "c4_loop R tk traindata ml seqlen (Suc k) g acc = Some (Inr (out, g'))"
    by (simp add: case_prod_beta)
  then show ?case by blast
qed

lemma loop_iterations:
  assumes run: "c4_loop R tk traindata ml seqlen k g acc = Some r"
    and R: "randint_in_range R" and ne: "traindata \<noteq> []"
  shows "every_iteration_reaches R tk traindata ml seqlen k g"
  using run
proof (induction k arbitrary: g acc)
  case 0
  show ?case by (rule every_iteration_reaches.no_iteration)
next
  case (Suc k)
  from Suc.prems obtain r1 where r1: "c4_retry R tk traindata ml seqlen g = Some r1"
    by (auto split: option.splits)
  from retry_reaches [OF r1 R ne] obtain enc g1 where r1_eq: "r1 = Inr (enc, g1)"
    and re: "reaches R tk traindata ml seqlen g enc g1"
    by blast
  let ?d = "rng_draw R g1 0 (int (length (input_ids enc)) - seqlen - 1)"
  from Suc.prems r1 r1_eq reaches_draw_offset [OF re]
  have "c4_loop R tk traindata ml seqlen k (snd ?d) (acc @ [cut_window enc seqlen (fst ?d)]) = Some r"
    by (simp add: case_prod_beta)
  then have "every_iteration_reaches R tk traindata ml seqlen k (snd ?d)"
    by (rule Suc.IH)
  with re show ?case
    by (rule every_iteration_reaches.iteration [OF _ refl])
qed

lemma get_c4_None_iff:
  "get_c4 R D num_samples seed_value seqlen tk g0 = None \<longleftrightarrow>
   c4_loop R tk (c4_train D) (max_length_of tk seqlen) seqlen (nat num_samples) (rng_seed R seed_value) [] = None"
  by (auto simp: get_c4_def Let_def split: option.splits sum.splits)

lemma get_c4_returns:
  assumes "c4_loop R tk (c4_train D) (max_length_of tk seqlen) seqlen (nat num_samples)
             (rng_seed R seed_value) [] = Some (Inr (out, g'))"
  shows "\<exists>res. get_c4 R D num_samples seed_value seqlen tk g0 = Some (Inr res)"
  using assms by (simp add: get_c4_def Let_def)

lemma all_short_retry_None:
  assumes R: "randint_in_range R" and ne: "traindata \<noteq> []"
    and short: "\<forall>doc \<in> set traindata. int (length (input_ids (encode tk doc ml))) \<le> seqlen"
  shows "c4_retry R tk traindata ml seqlen g = None"
proof (rule ccontr)
  assume "c4_retry R tk traindata ml seqlen g \<noteq> None"
  then obtain r where r: "c4_retry R tk traindata ml seqlen g = Some r" by blast
  from retry_reaches [OF r R ne] obtain enc g' where "r = Inr (enc, g')" by blast
  with c4_retry_found [OF r] obtain doc where "doc \<in> set traindata"
    "seqlen < int (length (input_ids (encode tk doc ml)))"
    by (auto simp: found_ok_def)
  with short show False by force
qed

text \<open>
  Claim C6, as amended. The rejection loop has no retry bound. With a non-empty train
  split and a generator that keeps its draws inside the requested range, \<open>get_c4\<close>
  comes to an end if and only if in each of the \<open>nsamples\<close> iterations the record
  draws reach a record whose tokenization has more than \<open>seqlen\<close> tokens, and then it
  returns normally. In particular, when at least one sample is asked for and no record
  of the train split tokenizes to more than \<open>seqlen\<close> tokens, \<open>get_c4\<close> never returns.
\<close>

theorem c4_returns_iff_every_iteration_reaches:
  assumes R: "randint_in_range R" and ne: "c4_train D \<noteq> []"
  shows "(get_c4 R D num_samples seed_value seqlen tk g0 \<noteq> None \<longleftrightarrow>
            every_iteration_reaches R tk (c4_train D) (max_length_of tk seqlen) seqlen
              (nat num_samples) (rng_seed R seed_value))
       \<and> (get_c4 R D num_samples seed_value seqlen tk g0 \<noteq> None \<longrightarrow>
            (\<exists>res. get_c4 R D num_samples seed_value seqlen tk g0 = Some (Inr res)))
       \<and> (0 < num_samples
            \<and> (\<forall>doc \<in> set (c4_train D).
                  int (length (input_ids (encode tk doc (max_length_of tk seqlen)))) \<le> seqlen)
          \<longrightarrow> get_c4 R D num_samples seed_value seqlen tk g0 = None)"
proof (intro conjI impI)
  let ?ml = "max_length_of tk seqlen"
  let ?loop = "c4_loop R tk (c4_train D) ?ml seqlen (nat num_samples) (rng_seed R seed_value) []"
  show "get_c4 R D num_samples seed_value seqlen tk g0 \<noteq> None \<longleftrightarrow>
          every_iteration_reaches R tk (c4_train D) ?ml seqlen (nat num_samples) (rng_seed R seed_value)"
  proof
    assume "get_c4 R D num_samples seed_value seqlen tk g0 \<noteq> None"
    then obtain r where "?loop = Some r" by (auto simp: get_c4_None_iff)
    then show "every_iteration_reaches R tk (c4_train D) ?ml seqlen (nat num_samples) (rng_seed R seed_value)"
      using R ne by (rule loop_iterations)
  next
    assume "every_iteration_reaches R tk (c4_train D) ?ml seqlen (nat num_samples) (rng_seed R seed_value)"
    from iterations_loop [OF this, of "[]"]
    show "get_c4 R D num_samples seed_value seqlen tk g0 \<noteq> None"
      by (auto simp: get_c4_None_iff)
  qed
next
  let ?ml = "max_length_of tk seqlen"
  let ?loop = "c4_loop R tk (c4_train D) ?ml seqlen (nat num_samples) (rng_seed R seed_value) []"
  assume "get_c4 R D num_samples seed_value seqlen tk g0 \<noteq> None"
  then obtain r where r: "?loop = Some r" by (auto simp: get_c4_None_iff)
  from loop_iterations [OF r R ne] iterations_loop [of R tk "c4_train D" ?ml seqlen "nat num_samples" "rng_seed R seed_value" "[]"]
  obtain out g' where "?loop = Some (Inr (out, g'))" by blast
  then show "\<exists>res. get_c4 R D num_samples seed_value seqlen tk g0 = Some (Inr res)"
    by (rule get_c4_returns)
next
  let ?ml = "max_length_of tk seqlen"
  assume a: "0 < num_samples
            \<and> (\<forall>doc \<in> set (c4_train D).
                  int (length (input_ids (encode tk doc ?ml))) \<le> seqlen)"
  then obtain k where k: "nat num_samples = Suc k" by (cases "nat num_samples") auto
  from a have "c4_retry R tk (c4_train D) ?ml seqlen (rng_seed R seed_value) = None"
    using all_short_retry_None [OF R ne] by blast
  then show "get_c4 R D num_samples seed_value seqlen tk g0 = None"
    by (simp add: get_c4_None_iff k)
qed

text \<open>
  Claim C6 as stated fails where no iteration draws a record. With no sample asked for,
  \<open>get_c4\<close> returns although the only train record has two tokens and \<open>seqlen\<close> is
  3; with an empty train split the first draw is from an empty range and \<open>get_c4\<close> ends
  with ValueError.
\<close>

theorem c4_returns_without_long_record_counterexample:
  "c4_train short_corpora = [''ab'']
   \<and> int (length (input_ids (encode (char_tokenizer (Some 100)) ''ab''
            (max_length_of (char_tokenizer (Some 100)) 3)))) \<le> 3
   \<and> get_c4 counter_rng short_corpora 0 0 3 (char_tokenizer (Some 100)) (0::nat)
       = Some (Inr (Loaders [] (TokenizerWrapper [117, 118, 119, 32, 122]), 0))
   \<and> c4_train empty_corpora = []
   \<and> get_c4 counter_rng empty_corpora 1 0 3 (char_tokenizer (Some 100)) (0::nat)
       = Some (Inl ValueError)"
  by code_simp

text \<open>
  The amended claim at work: one sample from the short corpus never comes, and the two
  samples of the other corpus are reached.
\<close>

theorem c4_returns_iff_every_iteration_reaches_witness:
  "get_c4 counter_rng short_corpora 1 0 3 (char_tokenizer (Some 100)) (0::nat) = None
   \<and> every_iteration_reaches counter_rng (char_tokenizer (Some 100)) (c4_train stub_corpora)
       (max_length_of (char_tokenizer (Some 100)) 3) 3 (nat 2) (rng_seed counter_rng 0)"
proof -
  have ne1: "c4_train short_corpora \<noteq> []" by (simp add: short_corpora_def)
  have ne2: "c4_train stub_corpora \<noteq> []" by (simp add: stub_corpora_def)
  have short: "(0::int) < 1 \<and> (\<forall>doc \<in> set (c4_train short_corpora).
           int (length (input_ids (encode (char_tokenizer (Some 100)) doc
                  (max_length_of (char_tokenizer (Some 100)) 3)))) \<le> 3)"
    by (simp add: short_corpora_def char_tokenizer_def max_length_of_def Let_def)
  from c4_returns_iff_every_iteration_reaches [OF randint_in_range_counter ne1,
      of 1 0 3 "char_tokenizer (Some 100)" 0] short
  have never: "get_c4 counter_rng short_corpora 1 0 3 (char_tokenizer (Some 100)) (0::nat) = None"
    by blast
  have "get_c4 counter_rng stub_corpora 2 0 3 (char_tokenizer (Some 100)) (0::nat) \<noteq> None"
    by (simp add: stub_c4_run)
  with c4_returns_iff_every_iteration_reaches [OF randint_in_range_counter ne2,
      of 2 0 3 "char_tokenizer (Some 100)" 0]
  have "every_iteration_reaches counter_rng (char_tokenizer (Some 100)) (c4_train stub_corpora)
       (max_length_of (char_tokenizer (Some 100)) 3) 3 (nat 2) (rng_seed counter_rng 0)"
    by blast
  with never show ?thesis by (rule conjI)
qed

section \<open>Properties of a run\<close>

subsection \<open>Configuration\<close>





lemma stub_args_simps:
  "sparsity_type (stub_args r p i) = Some p" "sparsity_ratio (stub_args r p i) = r"
  "model (stub_args r p i) = Some i" "save (stub_args r p i) = Some ''out''"
  "prune_method (stub_args r p i) = Some ''wanda''"
  by (simp_all add: stub_args_def)


subsection \<open>The corpus name\<close>

text \<open>
  Claim C10. The corpus name chosen in \<open>main\<close> reaches no criterion, audit, evaluation
  or persistence call: pruning and reporting give the same trace and outcome for any two
  values of \<open>dataset_name\<close>, and \<open>main\<close> itself is unchanged when any other name is
  put in place of the selected one.
\<close>

theorem corpus_name_never_used:
  "prune_and_report H a m tk dev prune_n prune_m idx name1
     = prune_and_report H a m tk dev prune_n prune_m idx name2
   \<and> main H a =
       (case set_up H a of
          (calls, Inl e) \<Rightarrow> (calls, Inl e)
        | (calls, Inr (model_id, m, tk, dev, prune_n, prune_m)) \<Rightarrow>
            (let (later, outcome) =
                   prune_and_report H a m tk dev prune_n prune_m (layer_no a) name1
             in (calls @ later, outcome)))"
  by (simp add: prune_and_report_def main_def Let_def split: prod.splits sum.splits)

subsection \<open>The trace of a run and the device in it\<close>

lemma get_llm_calls:
  "get_llm H model_id cache = (calls, r) \<Longrightarrow> criteria_invoked calls = []
     \<and> (\<forall>e \<in> set calls. \<exists>fam. e = GetLLM fam model_id cache)"
  by (auto simp: get_llm_def split: if_splits)

lemma set_up_calls:
  assumes "set_up H a = (calls, r)"
  shows "\<forall>e \<in> set calls. (\<exists>fam i c. e = GetLLM fam i c) \<or> e = ModelEval"
proof (cases "configure a")
  case (Inl e)
  with assms show ?thesis by (simp add: set_up_def)
next
  case (Inr nm)
  obtain n k where nm: "nm = (n, k)" by (cases nm)
  show ?thesis
  proof (cases "model a")
    case None
    with assms Inr nm show ?thesis by (simp add: set_up_def)
  next
    case (Some model_id)
    obtain load res where g: "get_llm H model_id (cache_dir a) = (load, res)"
      by (cases "get_llm H model_id (cache_dir a)")
    from get_llm_calls [OF g] have load: "\<forall>e \<in> set load. \<exists>fam i c. e = GetLLM fam i c"
      by blast
    from assms Inr nm Some g have "calls = load \<or> calls = load @ [ModelEval]"
      by (auto simp: set_up_def split: sum.splits prod.splits)
    with load show ?thesis by auto
  qed
qed

lemma set_up_Inr:
  assumes "set_up H a = (calls, Inr (model_id, m, tk, dev, prune_n, prune_m))"
  shows "configure a = Inr (prune_n, prune_m)" and "model a = Some model_id"
    and "\<exists>load proc. get_llm H model_id (cache_dir a) = (load, Inr (m, proc))"
    and "select_device model_id (hf_device_map H m) = Inr dev"
  using assms
  by (auto simp: set_up_def split: sum.splits prod.splits option.splits)

lemma dispatch_events:
  "dispatch H a m tk dev n k idx = (m', pruned) \<Longrightarrow>
     \<forall>e \<in> set pruned. \<exists>c. e = Prune c dev n k idx"
  by (auto simp: dispatch_def split: if_splits)


lemma persist_events:
  "criteria_invoked (fst (persist H a m tk ratio perplexity)) = []"
  "\<forall>e \<in> set (fst (persist H a m tk ratio perplexity)). device_is dev e"
  by (auto simp: persist_def Let_def device_is_def split: option.splits sum.splits)

lemma prune_and_report_trace:
  "fst (prune_and_report H a m tk dev n k idx name) =
     (let D = (if sparsity_ratio a \<noteq> 0 then dispatch H a m tk dev n k idx else (m, []))
      in snd D
         @ [CheckSparsity (check_sparsity H (fst D) a), EvalPPL dev (eval_ppl H (fst D) tk dev)]
         @ fst (persist H a (fst D) tk (check_sparsity H (fst D) a) (eval_ppl H (fst D) tk dev)))"
  by (simp add: prune_and_report_def Let_def case_prod_beta)


lemma prune_and_report_devices:
  assumes "prune_and_report H a m tk dev n k idx name = (later, outcome)"
  shows "\<forall>e \<in> set later. device_is dev e"
proof -
  let ?D = "if sparsity_ratio a \<noteq> 0 then dispatch H a m tk dev n k idx else (m, [])"
  have "\<forall>e \<in> set (snd ?D). device_is dev e"
  proof (cases "sparsity_ratio a \<noteq> 0")
    case True
    from dispatch_events [of H a m tk dev n k idx "fst (dispatch H a m tk dev n k idx)"
        "snd (dispatch H a m tk dev n k idx)"] True
    show ?thesis by (auto simp: device_is_def)
  next
    case False
    then show ?thesis by simp
  qed
  moreover from assms have "later = fst (prune_and_report H a m tk dev n k idx name)" by simp
  ultimately show ?thesis
    using persist_events(2) [of H a "fst ?D" tk "check_sparsity H (fst ?D) a"
        "eval_ppl H (fst ?D) tk dev" dev]
    by (auto simp: prune_and_report_trace Let_def device_is_def)
qed

lemma main_devices:
  assumes "e \<in> set (fst (main H a))" and "e = EvalPPL d v \<or> e = Prune c d n k idx"
  shows "\<exists>calls model_id m tk prune_n prune_m.
           set_up H a = (calls, Inr (model_id, m, tk, d, prune_n, prune_m))"
proof -
  obtain calls r where s: "set_up H a = (calls, r)" by (cases "set_up H a")
  from set_up_calls [OF s] assms(2) have notin: "e \<notin> set calls" by auto
  show ?thesis
  proof (cases r)
    case (Inl err)
    with s have "fst (main H a) = calls" by (simp add: main_def)
    with assms(1) notin show ?thesis by simp
  next
    case (Inr ctx)
    obtain model_id m tk dev prune_n prune_m where ctx: "ctx = (model_id, m, tk, dev, prune_n, prune_m)"
      by (cases ctx)
    obtain later outcome where p:
      "prune_and_report H a m tk dev prune_n prune_m (layer_no a) (select_corpus model_id)
         = (later, outcome)"
      by (cases "prune_and_report H a m tk dev prune_n prune_m (layer_no a) (select_corpus model_id)")
    from s Inr ctx p have "fst (main H a) = calls @ later"
      by (simp add: main_def Let_def)
    with assms(1) notin have "e \<in> set later" by simp
    with prune_and_report_devices [OF p] have "device_is dev e" by blast
    with assms(2) have "d = dev" by (auto simp: device_is_def)
    with s Inr ctx show ?thesis by blast
  qed
qed

text \<open>
  What the code does with the device: every pruning criterion and the perplexity
  evaluation get \<^verbatim>\<open>cuda:0\<close>, unless the model identifier contains \<open>30b\<close>, \<open>65b\<close>
  or \<open>70b\<close> as written, in lower case; then they get the entry of the loaded model's
  device map for \<open>lm_head\<close>.
\<close>

lemma downstream_device_selection:
  assumes id: "model a = Some model_id"
    and use: "e \<in> set (fst (main H a))"
    and e: "e = EvalPPL d v \<or> e = Prune c d n k idx"
  shows "(if contains ''30b'' model_id \<or> contains ''65b'' model_id \<or> contains ''70b'' model_id
          then \<exists>load m proc p. get_llm H model_id (cache_dir a) = (load, Inr (m, proc))
                 \<and> hf_device_map H m ''lm_head'' = Some p \<and> d = HfPlacement p
          else d = TorchDevice ''cuda:0'')
       \<and> (contains ''70b'' model_id \<longrightarrow> d \<noteq> TorchDevice ''cuda:0'')"
proof -
  from main_devices [OF use e] obtain calls model_id' m tk prune_n prune_m where
    s: "set_up H a = (calls, Inr (model_id', m, tk, d, prune_n, prune_m))"
    by blast
  from set_up_Inr(2) [OF s] id have same: "model_id' = model_id" by simp
  from set_up_Inr(3) [OF s] obtain load proc where
    g: "get_llm H model_id (cache_dir a) = (load, Inr (m, proc))"
    unfolding same by blast
  from set_up_Inr(4) [OF s] have sel: "select_device model_id (hf_device_map H m) = Inr d"
    unfolding same .
  show ?thesis
  proof (cases "contains ''30b'' model_id \<or> contains ''65b'' model_id \<or> contains ''70b'' model_id")
    case True
    with sel obtain p where "hf_device_map H m ''lm_head'' = Some p" "d = HfPlacement p"
      by (auto simp: select_device_def split: option.splits)
    with g True show ?thesis by auto
  next
    case False
    with sel show ?thesis by (auto simp: select_device_def)
  qed
qed

lemma stub_70b_run:
  "main stub_host (stub_args 0.5 ''2:4'' ''meta-llama/Llama-2-70b-hf'')
   = ([GetLLM CausalLM ''meta-llama/Llama-2-70b-hf'' ''./llm_weights'', ModelEval,
       Prune Wanda (HfPlacement (Gpu 1)) 2 4 (- 1),
       CheckSparsity (1 / 2), EvalPPL (HfPlacement (Gpu 1)) 6, MakeDirs ''out'',
       WriteLog ''out/log.txt'' [''actual_sparsity'' @ [CHR 0x09] @ ''ppl'', ''?'' @ [CHR 0x09] @ ''?'']],
      Inr \<lparr>final_model = [Wanda], actual_sparsity = 1 / 2, ppl = 6\<rparr>)"
  by code_simp

text \<open>A 70b identifier on the small host: the evaluation runs on the placement of \<open>lm_head\<close>.\<close>

lemma downstream_device_selection_at_70b:
  "contains ''70b'' ''meta-llama/Llama-2-70b-hf''
   \<and> EvalPPL (HfPlacement (Gpu 1)) 6
       \<in> set (fst (main stub_host (stub_args 0.5 ''2:4'' ''meta-llama/Llama-2-70b-hf'')))
   \<and> (\<exists>load m proc p.
         get_llm stub_host ''meta-llama/Llama-2-70b-hf''
           (cache_dir (stub_args 0.5 ''2:4'' ''meta-llama/Llama-2-70b-hf'')) = (load, Inr (m, proc))
         \<and> hf_device_map stub_host m ''lm_head'' = Some p
         \<and> HfPlacement (Gpu 1) = HfPlacement p)"
proof -
  let ?a = "stub_args 0.5 ''2:4'' ''meta-llama/Llama-2-70b-hf''"
  have c: "contains ''70b'' ''meta-llama/Llama-2-70b-hf''" by code_simp
  have id: "model ?a = Some ''meta-llama/Llama-2-70b-hf''" by (simp add: stub_args_simps)
  have mem: "EvalPPL (HfPlacement (Gpu 1)) 6 \<in> set (fst (main stub_host ?a))"
    by (subst stub_70b_run) simp
  have e: "EvalPPL (HfPlacement (Gpu 1)) 6 = EvalPPL (HfPlacement (Gpu 1)) 6
           \<or> EvalPPL (HfPlacement (Gpu 1)) 6 = Prune Wanda (HfPlacement (Gpu 1)) 0 0 0"
    by simp
  from downstream_device_selection [OF id mem e] c
  have "\<exists>load m proc p.
         get_llm stub_host ''meta-llama/Llama-2-70b-hf'' (cache_dir ?a) = (load, Inr (m, proc))
         \<and> hf_device_map stub_host m ''lm_head'' = Some p
         \<and> HfPlacement (Gpu 1) = HfPlacement p"
    by (simp only: if_True simp_thms)
  with c mem show ?thesis by blast
qed

text \<open>
  The markers are compared with the identifier as given, without the \<^verbatim>\<open>lower()\<close> of
  the family tests in lines 18, 36, 114 and 131.
\<close>

lemma upper_case_marker_keeps_default:
  "select_device ''meta-llama/Meta-Llama-3-70B'' device_map = Inr (TorchDevice ''cuda:0'')"
  by (simp add: select_device_def)

text \<open>
  Claim C9. The device used downstream is \<^verbatim>\<open>cuda:0\<close>, except when the model identifier
  contains a 30B/65B/70B parameter marker, which selects the device of \<open>lm_head\<close>. The
  code misses the marker when it is spelt in upper case: for the identifier
  \<open>meta-llama/Meta-Llama-3-70B\<close>, whose lowered form contains \<open>70b\<close>, on a host that
  places \<open>lm_head\<close> on the second accelerator, the criterion and the evaluation of
  \<open>main\<close> still get \<^verbatim>\<open>cuda:0\<close>.
\<close>

theorem upper_case_70B_gets_default_device:
  "contains ''70b'' (lower ''meta-llama/Meta-Llama-3-70B'')
   \<and> hf_device_map stub_host
         (from_pretrained stub_host CausalLM ''meta-llama/Meta-Llama-3-70B'' ''./llm_weights'')
         ''lm_head'' = Some (Gpu 1)
   \<and> select_device ''meta-llama/Meta-Llama-3-70B''
         (hf_device_map stub_host
            (from_pretrained stub_host CausalLM ''meta-llama/Meta-Llama-3-70B'' ''./llm_weights''))
       = Inr (TorchDevice ''cuda:0'')
   \<and> fst (main stub_host (stub_args 0.5 ''unstructured'' ''meta-llama/Meta-Llama-3-70B''))
       = [GetLLM CausalLM ''meta-llama/Meta-Llama-3-70B'' ''./llm_weights'', ModelEval,
          Prune Wanda (TorchDevice ''cuda:0'') 0 0 (- 1),
          CheckSparsity (1 / 2), EvalPPL (TorchDevice ''cuda:0'') 6, MakeDirs ''out'',
          WriteLog ''out/log.txt''
            [''actual_sparsity'' @ [CHR 0x09] @ ''ppl'', ''?'' @ [CHR 0x09] @ ''?'']]"
  by code_simp

subsection \<open>Dispatch, audit and log\<close>











end
